theory Spec2Isabelle
  imports Main "HOL-Library.Word" "HOL-Library.Char_ord"
begin

section \<open>redis-port: the decode command (cmd/decode.go)\<close>

text \<open>
  A Go \<^verbatim>\<open>[]byte\<close> and a Go \<^verbatim>\<open>string\<close> are both sequences of bytes; both are
  modelled as \<^typ>\<open>string\<close>, a list of 8-bit characters. The order on characters is the
  order of their byte values.
\<close>

subsection \<open>toText\<close>

text \<open>
  \<^verbatim>\<open>
  toText := func(p []byte) string {
      var b bytes.Buffer
      for _, c := range p {
          switch {
          case c >= '#' && c <= '~':
              b.WriteByte(c)
          default:
              b.WriteByte('.')
          }
      }
      return b.String()
  }
  \<close>
  The loop runs over \<open>p\<close> with the buffer \<open>b\<close> as accumulator.
\<close>

fun toText_loop :: "string \<Rightarrow> string \<Rightarrow> string" where
  "toText_loop [] b = b"
| "toText_loop (c # p) b =
     (if CHR ''#'' \<le> c \<and> c \<le> CHR ''~'' then toText_loop p (b @ [c])
      else toText_loop p (b @ [CHR ''.'']))"

definition toText :: "string \<Rightarrow> string" where
  "toText p = toText_loop p []"

subsection \<open>toBase64\<close>

text \<open>
  \<^verbatim>\<open>toBase64\<close> calls \<^verbatim>\<open>base64.StdEncoding.EncodeToString\<close> of Go's standard library:
  the alphabet of RFC 4648 section 4, with \<^verbatim>\<open>=\<close> padding. The library packs three bytes
  into \<^verbatim>\<open>val := uint(src[0])<<16 | uint(src[1])<<8 | uint(src[2])\<close> and emits
  \<^verbatim>\<open>encode[val>>18&0x3F]\<close>, \<^verbatim>\<open>encode[val>>12&0x3F]\<close>, \<^verbatim>\<open>encode[val>>6&0x3F]\<close>,
  \<^verbatim>\<open>encode[val&0x3F]\<close>; a tail of one or two bytes is packed the same way and padded.
  Bytes are below 256, so the shifts and ors are written as products, sums, \<open>div\<close> and
  \<open>mod\<close> on \<^typ>\<open>nat\<close>.
\<close>

definition encodeStd :: string where
  "encodeStd = ''ABCDEFGHIJKLMNOPQRSTUVWXYZabcdefghijklmnopqrstuvwxyz0123456789+/''"

definition encode :: "nat \<Rightarrow> char" where
  "encode v = encodeStd ! (v mod 64)"

fun EncodeToString :: "string \<Rightarrow> string" where
  "EncodeToString [] = []"
| "EncodeToString [s0] =
     (let val = of_char s0 * 65536
      in [encode (val div 262144), encode (val div 4096), CHR ''='', CHR ''=''])"
| "EncodeToString [s0, s1] =
     (let val = of_char s0 * 65536 + of_char s1 * 256
      in [encode (val div 262144), encode (val div 4096), encode (val div 64), CHR ''=''])"
| "EncodeToString (s0 # s1 # s2 # src) =
     (let val = of_char s0 * 65536 + of_char s1 * 256 + of_char s2
      in [encode (val div 262144), encode (val div 4096), encode (val div 64), encode val]
         @ EncodeToString src)"

definition toBase64 :: "string \<Rightarrow> string" where
  "toBase64 p = EncodeToString p"

text \<open>
  The decoder of the same encoding, as RFC 4648 defines it (the program itself never
  decodes): four characters give three bytes, \<^verbatim>\<open>=\<close> is accepted only as padding of
  the last group, and any other character outside the alphabet is rejected.
\<close>

fun indexByte :: "string \<Rightarrow> char \<Rightarrow> nat option" where
  "indexByte [] c = None"
| "indexByte (x # xs) c = (if x = c then Some 0 else map_option Suc (indexByte xs c))"

definition decodeMap :: "char \<Rightarrow> nat option" where
  "decodeMap c = indexByte encodeStd c"

fun base64decode :: "string \<Rightarrow> string option" where
  "base64decode [] = Some []"
| "base64decode (c0 # c1 # c2 # c3 # rest) =
     (case (decodeMap c0, decodeMap c1) of
        (Some d0, Some d1) \<Rightarrow>
          if c2 = CHR ''='' then
            (if c3 = CHR ''='' \<and> rest = []
             then Some [char_of ((d0 * 262144 + d1 * 4096) div 65536)]
             else None)
          else
            (case decodeMap c2 of
               None \<Rightarrow> None
             | Some d2 \<Rightarrow>
                 if c3 = CHR ''='' then
                   (if rest = []
                    then (let val = d0 * 262144 + d1 * 4096 + d2 * 64
                          in Some [char_of (val div 65536), char_of (val div 256)])
                    else None)
                 else
                   (case decodeMap c3 of
                      None \<Rightarrow> None
                    | Some d3 \<Rightarrow>
                        (let val = d0 * 262144 + d1 * 4096 + d2 * 64 + d3
                         in map_option
                              ((@) [char_of (val div 65536), char_of (val div 256), char_of val])
                              (base64decode rest))))
      | _ \<Rightarrow> None)"
| "base64decode _ = None"

subsection \<open>toJson\<close>

text \<open>
  \<^verbatim>\<open>toJson\<close> calls \<^verbatim>\<open>json.Marshal\<close> of Go's standard library on a pointer to an anonymous
  struct whose fields all carry a \<^verbatim>\<open>json:"name"\<close> tag. The struct is modelled as the
  list of its (tag, value) pairs in declaration order, which is the order in which the
  library writes them. The values that occur are unsigned integers (\<^verbatim>\<open>uint32\<close>,
  \<^verbatim>\<open>uint64\<close>), the \<^verbatim>\<open>int\<close> index of a list element, strings, and the \<^verbatim>\<open>float64\<close>
  score of a sorted-set element, kept as its IEEE 754 bit pattern.
\<close>

datatype jsonValue = JUint nat | JInt int | JString string | JFloat "64 word"

text \<open>\<^verbatim>\<open>strconv.AppendUint(b, v, 10)\<close> and \<^verbatim>\<open>strconv.AppendInt(b, v, 10)\<close>.\<close>

definition digits :: string where
  "digits = ''0123456789''"

fun formatUint :: "nat \<Rightarrow> string" where
  "formatUint n = (if n < 10 then [digits ! n] else formatUint (n div 10) @ [digits ! (n mod 10)])"

declare formatUint.simps [simp del]

definition formatInt :: "int \<Rightarrow> string" where
  "formatInt i = (if i < 0 then CHR ''-'' # formatUint (nat (- i)) else formatUint (nat i))"

text \<open>
  The string encoder with HTML escaping, which \<^verbatim>\<open>json.Marshal\<close> switches on: a byte from
  0x20 to 0x7f other than \<^verbatim>\<open>\ " < > &\<close> is copied, \<^verbatim>\<open>\\<close> and \<^verbatim>\<open>"\<close> get a backslash,
  line feed, carriage return and tab are written \<^verbatim>\<open>\n\<close>, \<^verbatim>\<open>\r\<close>, \<^verbatim>\<open>\t\<close>, and every
  other byte below 0x80 is written \<^verbatim>\<open>\u00XX\<close>. From 0x80 on the library decodes UTF-8;
  here such a byte is copied, which is what happens to well-formed text. No string that
  reaches the encoder in this program holds a byte outside \<^verbatim>\<open>'#'..'~'\<close>
  (lemma \<open>item_strings_range\<close> below).
\<close>

definition hex :: string where
  "hex = ''0123456789abcdef''"

definition escapeByte :: "char \<Rightarrow> string" where
  "escapeByte b =
     (if CHR 0x80 \<le> b then [b]
      else if CHR 0x20 \<le> b \<and> b \<noteq> CHR 0x5C \<and> b \<noteq> CHR 0x22
              \<and> b \<noteq> CHR ''<'' \<and> b \<noteq> CHR ''>'' \<and> b \<noteq> CHR ''&'' then [b]
      else if b = CHR 0x5C \<or> b = CHR 0x22 then [CHR 0x5C, b]
      else if b = CHR 0x0A then [CHR 0x5C, CHR ''n'']
      else if b = CHR 0x0D then [CHR 0x5C, CHR ''r'']
      else if b = CHR 0x09 then [CHR 0x5C, CHR ''t'']
      else [CHR 0x5C, CHR ''u'', CHR ''0'', CHR ''0'',
            hex ! (of_char b div 16), hex ! (of_char b mod 16)])"

fun escapeBytes :: "string \<Rightarrow> string" where
  "escapeBytes [] = []"
| "escapeBytes (b # s) = escapeByte b @ escapeBytes s"

definition encodeString :: "string \<Rightarrow> string" where
  "encodeString s = [CHR 0x22] @ escapeBytes s @ [CHR 0x22]"

text \<open>
  The float encoder refuses a value that is infinite or not a number
  (\<^verbatim>\<open>math.IsInf(f, 0) || math.IsNaN(f)\<close>, an \<^verbatim>\<open>UnsupportedValueError\<close>): these are the
  bit patterns whose eleven exponent bits are all ones. A finite value is written by
  \<^verbatim>\<open>strconv\<close> in its shortest decimal form; that formatter is the parameter \<open>fmt\<close>.
\<close>

definition unsupportedFloat :: "64 word \<Rightarrow> bool" where
  "unsupportedFloat f = (unat (drop_bit 52 f) mod 2048 = 2047)"

fun encodeValue :: "(64 word \<Rightarrow> string) \<Rightarrow> jsonValue \<Rightarrow> string option" where
  "encodeValue fmt (JUint n) = Some (formatUint n)"
| "encodeValue fmt (JInt i) = Some (formatInt i)"
| "encodeValue fmt (JString s) = Some (encodeString s)"
| "encodeValue fmt (JFloat f) = (if unsupportedFloat f then None else Some (fmt f))"

text \<open>
  The struct encoder writes \<^verbatim>\<open>{\<close> before the first field and \<^verbatim>\<open>,\<close> before every
  later one, then the quoted name, a colon and the value, and closes with \<^verbatim>\<open>}\<close>.
  \<open>next\<close> is the separator to write.
\<close>

fun encodeFields :: "(64 word \<Rightarrow> string) \<Rightarrow> char \<Rightarrow> (string \<times> jsonValue) list \<Rightarrow> string option" where
  "encodeFields fmt next [] = Some (if next = CHR ''{'' then ''{}'' else ''}'')"
| "encodeFields fmt next ((name, v) # fs) =
     (case encodeValue fmt v of
        None \<Rightarrow> None
      | Some ev \<Rightarrow>
          (case encodeFields fmt (CHR '','') fs of
             None \<Rightarrow> None
           | Some rest \<Rightarrow> Some ([next] @ encodeString name @ '':'' @ ev @ rest)))"

definition Marshal :: "(64 word \<Rightarrow> string) \<Rightarrow> (string \<times> jsonValue) list \<Rightarrow> string option" where
  "Marshal fmt v = encodeFields fmt (CHR ''{'') v"

text \<open>
  The fatal errors of the command, named by the message each one is reported with.
  \<^verbatim>\<open>log.PanicError\<close> and \<^verbatim>\<open>log.Panicf\<close> belong to the package \<^verbatim>\<open>pkg/libs/log\<close>.
\<close>

datatype panic = DecodeFailed | UnknownObject | EncodeToJsonFailed | WriteStringFailed

text \<open>
  \<^verbatim>\<open>
  toJson := func(o interface{}) string {
      b, err := json.Marshal(o)
      if err != nil {
          log.PanicError(err, "encode to json failed")
      }
      return string(b)
  }
  \<close>
\<close>

definition toJson :: "(64 word \<Rightarrow> string) \<Rightarrow> (string \<times> jsonValue) list \<Rightarrow> panic + string" where
  "toJson fmt v = (case Marshal fmt v of None \<Rightarrow> Inl EncodeToJsonFailed | Some b \<Rightarrow> Inr b)"

subsection \<open>The records and the decoded objects\<close>

text \<open>
  Modelled from the spec: the types of the package \<^verbatim>\<open>pkg/rdb\<close> are not in this file. An
  input record has a database index, a key, an expiry time and a raw value; a decoded
  value is a scalar, a list of byte strings, a hash (a sequence of field and value
  pairs), a set of members, or a sorted set (a sequence of members with a 64-bit float
  score). The field names and the integer widths are those \<^verbatim>\<open>decoderMain\<close> uses
  (\<^verbatim>\<open>e.DB\<close> fills a \<^verbatim>\<open>uint32\<close>, \<^verbatim>\<open>e.ExpireAt\<close> a \<^verbatim>\<open>uint64\<close>). What \<^verbatim>\<open>rdb.DecodeDump\<close>
  returns is an \<^verbatim>\<open>interface{}\<close>: one of the five types of the type switch, or anything
  else (\<open>Unknown\<close>, the \<^verbatim>\<open>default\<close> case).
\<close>

record HashElement =
  Field :: string
  Value :: string

record ZSetElement =
  Member :: string
  Score :: "64 word"

record BinEntry =
  DB :: "32 word"
  Key :: string
  ExpireAt :: "64 word"
  Value :: string

datatype object =
    String string
  | List "string list"
  | Hash "HashElement list"
  | Set "string list"
  | ZSet "ZSetElement list"
  | Unknown

subsection \<open>decoderMain: one entry\<close>

text \<open>
  The fields every output struct starts with:
  \<^verbatim>\<open>e.DB, "<type>", e.ExpireAt, toText(e.Key), toBase64(e.Key)\<close>.
\<close>

definition header :: "BinEntry \<Rightarrow> string \<Rightarrow> (string \<times> jsonValue) list" where
  "header e ty =
     [(''db'', JUint (unat (DB e))), (''type'', JString ty),
      (''expireat'', JUint (unat (ExpireAt e))),
      (''key'', JString (toText (Key e))), (''key64'', JString (toBase64 (Key e)))]"

text \<open>The five anonymous structs, one for each case of the type switch.\<close>

definition stringItem :: "BinEntry \<Rightarrow> string \<Rightarrow> (string \<times> jsonValue) list" where
  "stringItem e obj = header e ''string'' @ [(''value64'', JString (toBase64 obj))]"

definition listItem :: "BinEntry \<Rightarrow> nat \<Rightarrow> string \<Rightarrow> (string \<times> jsonValue) list" where
  "listItem e i ele =
     header e ''list'' @ [(''index'', JInt (int i)), (''value64'', JString (toBase64 ele))]"

definition hashItem :: "BinEntry \<Rightarrow> HashElement \<Rightarrow> (string \<times> jsonValue) list" where
  "hashItem e ele =
     header e ''hash'' @
       [(''field'', JString (toText (Field ele))), (''field64'', JString (toBase64 (Field ele))),
        (''value64'', JString (toBase64 (HashElement.Value ele)))]"

definition setItem :: "BinEntry \<Rightarrow> string \<Rightarrow> (string \<times> jsonValue) list" where
  "setItem e mem =
     header e ''set'' @
       [(''member'', JString (toText mem)), (''member64'', JString (toBase64 mem))]"

definition zsetItem :: "BinEntry \<Rightarrow> ZSetElement \<Rightarrow> (string \<times> jsonValue) list" where
  "zsetItem e ele =
     header e ''zset'' @
       [(''member'', JString (toText (Member ele))),
        (''member64'', JString (toBase64 (Member ele))), (''score'', JFloat (Score ele))]"

text \<open>
  \<^verbatim>\<open>fmt.Fprintf(&b, "%s\n", toJson(o))\<close>: the line is appended to the buffer \<open>b\<close>, unless
  \<^verbatim>\<open>toJson\<close> has panicked.
\<close>

definition Fprintf :: "(64 word \<Rightarrow> string) \<Rightarrow> string \<Rightarrow> (string \<times> jsonValue) list \<Rightarrow> panic + string" where
  "Fprintf fmt b v =
     (case toJson fmt v of Inl err \<Rightarrow> Inl err | Inr js \<Rightarrow> Inr (b @ js @ [CHR 0x0A]))"

text \<open>The four \<^verbatim>\<open>for ... range obj\<close> loops, with the buffer \<open>b\<close> they append to.\<close>

fun rangeList :: "(64 word \<Rightarrow> string) \<Rightarrow> BinEntry \<Rightarrow> nat \<Rightarrow> string list \<Rightarrow> string \<Rightarrow> panic + string" where
  "rangeList fmt e i [] b = Inr b"
| "rangeList fmt e i (ele # obj) b =
     (case Fprintf fmt b (listItem e i ele) of
        Inl err \<Rightarrow> Inl err
      | Inr b' \<Rightarrow> rangeList fmt e (Suc i) obj b')"

fun rangeHash :: "(64 word \<Rightarrow> string) \<Rightarrow> BinEntry \<Rightarrow> HashElement list \<Rightarrow> string \<Rightarrow> panic + string" where
  "rangeHash fmt e [] b = Inr b"
| "rangeHash fmt e (ele # obj) b =
     (case Fprintf fmt b (hashItem e ele) of
        Inl err \<Rightarrow> Inl err
      | Inr b' \<Rightarrow> rangeHash fmt e obj b')"

fun rangeSet :: "(64 word \<Rightarrow> string) \<Rightarrow> BinEntry \<Rightarrow> string list \<Rightarrow> string \<Rightarrow> panic + string" where
  "rangeSet fmt e [] b = Inr b"
| "rangeSet fmt e (mem # obj) b =
     (case Fprintf fmt b (setItem e mem) of
        Inl err \<Rightarrow> Inl err
      | Inr b' \<Rightarrow> rangeSet fmt e obj b')"

fun rangeZSet :: "(64 word \<Rightarrow> string) \<Rightarrow> BinEntry \<Rightarrow> ZSetElement list \<Rightarrow> string \<Rightarrow> panic + string" where
  "rangeZSet fmt e [] b = Inr b"
| "rangeZSet fmt e (ele # obj) b =
     (case Fprintf fmt b (zsetItem e ele) of
        Inl err \<Rightarrow> Inl err
      | Inr b' \<Rightarrow> rangeZSet fmt e obj b')"

text \<open>
  The type switch of \<^verbatim>\<open>decoderMain\<close> on the decoded object, starting from the empty
  buffer \<^verbatim>\<open>var b bytes.Buffer\<close>; the result is \<^verbatim>\<open>b.String()\<close>.
\<close>

fun switch_obj :: "(64 word \<Rightarrow> string) \<Rightarrow> BinEntry \<Rightarrow> object \<Rightarrow> panic + string" where
  "switch_obj fmt e Unknown = Inl UnknownObject"
| "switch_obj fmt e (String obj) = Fprintf fmt [] (stringItem e obj)"
| "switch_obj fmt e (List obj) = rangeList fmt e 0 obj []"
| "switch_obj fmt e (Hash obj) = rangeHash fmt e obj []"
| "switch_obj fmt e (Set obj) = rangeSet fmt e obj []"
| "switch_obj fmt e (ZSet obj) = rangeZSet fmt e obj []"

text \<open>
  \<^verbatim>\<open>
  o, err := rdb.DecodeDump(e.Value)
  if err != nil {
      log.PanicError(err, "decode failed")
  }
  \<close>
  \<^verbatim>\<open>rdb.DecodeDump\<close> is the parameter \<open>dump\<close>; \<open>None\<close> is its error return.
\<close>

definition decodeEntry ::
  "(string \<Rightarrow> object option) \<Rightarrow> (64 word \<Rightarrow> string) \<Rightarrow> BinEntry \<Rightarrow> panic + string" where
  "decodeEntry dump fmt e =
     (case dump (BinEntry.Value e) of
        None \<Rightarrow> Inl DecodeFailed
      | Some obj \<Rightarrow> switch_obj fmt e obj)"

text \<open>
  The lines of a text: the pieces that end in a line feed, and what follows the last
  line feed if it is not empty.
\<close>

fun lines_from :: "string \<Rightarrow> string \<Rightarrow> string list" where
  "lines_from cur [] = (if cur = [] then [] else [cur])"
| "lines_from cur (c # s) =
     (if c = CHR 0x0A then cur # lines_from [] s else lines_from (cur @ [c]) s)"

definition lines_of :: "string \<Rightarrow> string list" where
  "lines_of s = lines_from [] s"

text \<open>
  What the data model promises for one entry: the output items of a decoded object, in
  the order of its elements (a scalar has one), how many there are, and the condition
  under which every one of them can be serialised, namely that no sorted-set score is
  infinite or not a number.
\<close>

fun items :: "BinEntry \<Rightarrow> object \<Rightarrow> (string \<times> jsonValue) list list" where
  "items e (String obj) = [stringItem e obj]"
| "items e (List obj) = map (\<lambda>(i, ele). listItem e i ele) (enumerate 0 obj)"
| "items e (Hash obj) = map (hashItem e) obj"
| "items e (Set obj) = map (setItem e) obj"
| "items e (ZSet obj) = map (zsetItem e) obj"
| "items e Unknown = []"




subsection \<open>Main: the pipeline\<close>

text \<open>
  Modelled from the spec: \<^verbatim>\<open>atomic2.Int64\<close> (package \<^verbatim>\<open>pkg/libs/atomic2\<close>) is not in this
  file. The counters are process-scoped atomic counters with an atomic increment and an
  atomic read. Each is a 64-bit integer: \<^verbatim>\<open>Add\<close> and \<^verbatim>\<open>Incr\<close> wrap around, and \<^verbatim>\<open>Get\<close>
  reads a signed number (\<open>sint\<close>). \<^verbatim>\<open>cmdDecode\<close> holds the three counters, and
  \<^verbatim>\<open>Stat\<close> copies their values into a \<^verbatim>\<open>cmdDecodeStat\<close>, which has the same three fields.
\<close>

record cmdDecode =
  rbytes :: "64 word"
  wbytes :: "64 word"
  nentry :: "64 word"

type_synonym cmdDecodeStat = cmdDecode

text \<open>
  What the run depends on from outside this file: \<^verbatim>\<open>args.parallel\<close>, the decoder
  \<^verbatim>\<open>rdb.DecodeDump\<close>, the float formatter of \<^verbatim>\<open>strconv\<close>, and the number of bytes the
  loader reads from the input for one entry.
\<close>

record env =
  parallel :: nat
  DecodeDump :: "string \<Rightarrow> object option"
  formatFloat :: "64 word \<Rightarrow> string"
  readSize :: "BinEntry \<Rightarrow> nat"

text \<open>
  Where a goroutine running \<^verbatim>\<open>decoderMain\<close> stands: at the head of
  \<^verbatim>\<open>for e := range ipipe\<close>; holding an entry it has received; after \<^verbatim>\<open>cmd.nentry.Incr()\<close>,
  about to send \<^verbatim>\<open>b.String()\<close>; or returned, once the channel is closed and drained.
\<close>

datatype worker = Ranging | Got BinEntry | Sending string | Returned

text \<open>
  The state of a run. \<open>source\<close> is the sequence of entries the loader has still to
  read from the input; \<open>saveto\<close> is the sequence of strings handed to
  \<^verbatim>\<open>writer.WriteString\<close> so far, so the destination holds \<open>concat (saveto s)\<close>;
  \<open>logged\<close> is the sequence of statistics the monitor loop has printed; \<open>fatal\<close> is set
  when a goroutine has panicked; \<open>returned\<close> when \<^verbatim>\<open>Main\<close> has returned.
\<close>

record state =
  cmd :: cmdDecode
  source :: "BinEntry list"
  ipipe :: "BinEntry list"
  ipipe_closed :: bool
  workers :: "worker list"
  opipe :: "string list"
  opipe_closed :: bool
  saveto :: "string list"
  wait_closed :: bool
  logged :: "cmdDecodeStat list"
  returned :: bool
  fatal :: "panic option"

definition Stat :: "state \<Rightarrow> cmdDecodeStat" where
  "Stat s = \<lparr>rbytes = rbytes (cmd s), wbytes = wbytes (cmd s), nentry = nentry (cmd s)\<rparr>"

text \<open>
  The goroutines run interleaved. A run is a sequence of atomic actions, each one a
  communication or a counter update of one goroutine together with the local computation
  that precedes it:
  \<^item> \<open>LoaderSend\<close>, \<open>LoaderClose\<close>: the loader sends the next entry on \<^verbatim>\<open>ipipe\<close>, or
    closes it at the end of the input;
  \<^item> \<open>Recv i\<close>: worker \<open>i\<close> receives an entry from \<^verbatim>\<open>ipipe\<close>;
  \<^item> \<open>Decode i\<close>: worker \<open>i\<close> decodes its entry and fills the buffer, then
    \<^verbatim>\<open>cmd.nentry.Incr()\<close>; or it panics;
  \<^item> \<open>Send i\<close>: worker \<open>i\<close> does \<^verbatim>\<open>opipe <- b.String()\<close>;
  \<^item> \<open>Return i\<close>: the \<^verbatim>\<open>range\<close> loop of worker \<open>i\<close> ends and \<^verbatim>\<open>group <- 0\<close>;
  \<^item> \<open>CloseOpipe\<close>: \<^verbatim>\<open>group\<close> has been received \<^verbatim>\<open>cap(group)\<close> times, \<^verbatim>\<open>close(opipe)\<close>;
  \<^item> \<open>Write ok\<close>: the writer goroutine receives \<open>s\<close> from \<^verbatim>\<open>opipe\<close>,
    \<^verbatim>\<open>cmd.wbytes.Add(int64(len(s)))\<close>, then writes and flushes; \<open>ok\<close> tells whether the
    destination accepted the write;
  \<^item> \<open>CloseWait\<close>: the writer's \<^verbatim>\<open>range opipe\<close> ends, \<^verbatim>\<open>close(wait)\<close>;
  \<^item> \<open>Tick\<close>: \<^verbatim>\<open>time.After(time.Second)\<close> fires in the monitor loop, which prints
    \<^verbatim>\<open>cmd.Stat()\<close>;
  \<^item> \<open>Done\<close>: the monitor loop receives from \<^verbatim>\<open>wait\<close>, prints \<^verbatim>\<open>cmd.Stat()\<close> a last
    time, and \<^verbatim>\<open>Main\<close> returns.
\<close>

datatype action =
    LoaderSend | LoaderClose
  | Recv nat | Decode nat | Send nat | Return nat
  | CloseOpipe
  | Write bool | CloseWait
  | Tick | Done

text \<open>
  Modelled from the spec: \<^verbatim>\<open>newRDBLoader\<close> is not in this file. The loader pushes each
  record into a bounded queue of capacity \<open>P \<times> 32\<close>, tracks the bytes consumed in the
  read-byte counter, and signals the end of the sequence when the source is exhausted.
\<close>

definition loaderSend :: "env \<Rightarrow> state \<Rightarrow> state option" where
  "loaderSend env s =
     (case source s of
        [] \<Rightarrow> None
      | e # rest \<Rightarrow>
          if length (ipipe s) < parallel env * 32 \<and> \<not> ipipe_closed s
          then Some (s\<lparr>source := rest, ipipe := ipipe s @ [e],
                       cmd := (cmd s)\<lparr>rbytes := rbytes (cmd s) + word_of_nat (readSize env e)\<rparr>\<rparr>)
          else None)"

definition loaderClose :: "state \<Rightarrow> state option" where
  "loaderClose s =
     (if source s = [] \<and> \<not> ipipe_closed s then Some (s\<lparr>ipipe_closed := True\<rparr>) else None)"

text \<open>
  Modelled from the spec: \<^verbatim>\<open>log.PanicError\<close> and \<^verbatim>\<open>log.Panicf\<close> (package
  \<^verbatim>\<open>pkg/libs/log\<close>) are not in this file. The errors they report are fatal: the component
  detecting one terminates the entire run immediately; there is no retry and no
  skip-and-continue. The run ends in a state that records the error, from which no
  action is taken (see \<open>step\<close> below).
\<close>

definition PanicError :: "panic \<Rightarrow> state \<Rightarrow> state" where
  "PanicError err s = s\<lparr>fatal := Some err\<rparr>"

text \<open>The steps of \<^verbatim>\<open>decoderMain\<close> in worker \<open>i\<close>.\<close>

definition recv :: "nat \<Rightarrow> state \<Rightarrow> state option" where
  "recv i s =
     (if i < length (workers s) \<and> workers s ! i = Ranging
      then (case ipipe s of
              [] \<Rightarrow> None
            | e # rest \<Rightarrow> Some (s\<lparr>ipipe := rest, workers := (workers s)[i := Got e]\<rparr>))
      else None)"

definition decode :: "env \<Rightarrow> nat \<Rightarrow> state \<Rightarrow> state option" where
  "decode env i s =
     (if i < length (workers s)
      then (case workers s ! i of
              Got e \<Rightarrow>
                (case decodeEntry (DecodeDump env) (formatFloat env) e of
                   Inl err \<Rightarrow> Some (PanicError err s)
                 | Inr b \<Rightarrow>
                     Some (s\<lparr>cmd := (cmd s)\<lparr>nentry := nentry (cmd s) + 1\<rparr>,
                              workers := (workers s)[i := Sending b]\<rparr>))
            | _ \<Rightarrow> None)
      else None)"

definition send :: "env \<Rightarrow> nat \<Rightarrow> state \<Rightarrow> state option" where
  "send env i s =
     (if i < length (workers s)
      then (case workers s ! i of
              Sending b \<Rightarrow>
                if length (opipe s) < parallel env * 32 \<and> \<not> opipe_closed s
                then Some (s\<lparr>opipe := opipe s @ [b], workers := (workers s)[i := Ranging]\<rparr>)
                else None
            | _ \<Rightarrow> None)
      else None)"

definition return :: "nat \<Rightarrow> state \<Rightarrow> state option" where
  "return i s =
     (if i < length (workers s) \<and> workers s ! i = Ranging \<and> ipipe s = [] \<and> ipipe_closed s
      then Some (s\<lparr>workers := (workers s)[i := Returned]\<rparr>)
      else None)"

definition closeOpipe :: "state \<Rightarrow> state option" where
  "closeOpipe s =
     (if list_all (\<lambda>w. w = Returned) (workers s) \<and> \<not> opipe_closed s
      then Some (s\<lparr>opipe_closed := True\<rparr>)
      else None)"

text \<open>
  \<^verbatim>\<open>
  for s := range opipe {
      cmd.wbytes.Add(int64(len(s)))
      if _, err := writer.WriteString(s); err != nil {
          log.PanicError(err, "write string failed")
      }
      flushWriter(writer)
  }
  \<close>
\<close>

definition writeString :: "bool \<Rightarrow> state \<Rightarrow> state option" where
  "writeString ok s =
     (case opipe s of
        [] \<Rightarrow> None
      | x # rest \<Rightarrow>
          (let s' = s\<lparr>opipe := rest,
                       cmd := (cmd s)\<lparr>wbytes := wbytes (cmd s) + word_of_nat (length x)\<rparr>\<rparr>
           in if ok then Some (s'\<lparr>saveto := saveto s @ [x]\<rparr>)
              else Some (PanicError WriteStringFailed s')))"

definition closeWait :: "state \<Rightarrow> state option" where
  "closeWait s =
     (if opipe s = [] \<and> opipe_closed s \<and> \<not> wait_closed s
      then Some (s\<lparr>wait_closed := True\<rparr>)
      else None)"

text \<open>
  \<^verbatim>\<open>
  for done := false; !done; {
      select {
      case <-wait:
          done = true
      case <-time.After(time.Second):
      }
      stat := cmd.Stat()
      ...
      log.Info(b.String())
  }
  log.Info("decode: done")
  \<close>
\<close>

definition tick :: "state \<Rightarrow> state option" where
  "tick s = Some (s\<lparr>logged := logged s @ [Stat s]\<rparr>)"

definition waitDone :: "state \<Rightarrow> state option" where
  "waitDone s =
     (if wait_closed s then Some (s\<lparr>logged := logged s @ [Stat s], returned := True\<rparr>)
      else None)"

text \<open>
  One action. Nothing runs after a panic, and nothing runs after \<^verbatim>\<open>Main\<close> has returned:
  the process is gone. \<open>None\<close> means that the action cannot be taken in this state (the
  goroutine is blocked, or is not at that point of its code).
\<close>

fun act :: "env \<Rightarrow> action \<Rightarrow> state \<Rightarrow> state option" where
  "act env LoaderSend s = loaderSend env s"
| "act env LoaderClose s = loaderClose s"
| "act env (Recv i) s = recv i s"
| "act env (Decode i) s = decode env i s"
| "act env (Send i) s = send env i s"
| "act env (Return i) s = return i s"
| "act env CloseOpipe s = closeOpipe s"
| "act env (Write ok) s = writeString ok s"
| "act env CloseWait s = closeWait s"
| "act env Tick s = tick s"
| "act env Done s = waitDone s"

definition step :: "env \<Rightarrow> action \<Rightarrow> state \<Rightarrow> state option" where
  "step env a s = (if fatal s \<noteq> None \<or> returned s then None else act env a s)"

fun exec :: "env \<Rightarrow> action list \<Rightarrow> state \<Rightarrow> state option" where
  "exec env [] s = Some s"
| "exec env (a # as) s = (case step env a s of None \<Rightarrow> None | Some s' \<Rightarrow> exec env as s')"

text \<open>
  The state in which \<^verbatim>\<open>Main\<close> has started its goroutines: the counters are zero, both
  channels are empty, \<^verbatim>\<open>args.parallel\<close> workers stand at the head of their loop, and
  \<open>input\<close> is what the loader will read.
\<close>

definition Main :: "env \<Rightarrow> BinEntry list \<Rightarrow> state" where
  "Main env input =
     \<lparr>cmd = \<lparr>rbytes = 0, wbytes = 0, nentry = 0\<rparr>,
      source = input, ipipe = [], ipipe_closed = False,
      workers = replicate (parallel env) Ranging,
      opipe = [], opipe_closed = False, saveto = [], wait_closed = False,
      logged = [], returned = False, fatal = None\<rparr>"

subsection \<open>Quantities of a state\<close>

text \<open>
  The entries not yet decoded are those still in the input, those in \<^verbatim>\<open>ipipe\<close> and
  those a worker holds. The elements sent on \<^verbatim>\<open>opipe\<close> so far are those the writer has
  written and those still queued.
\<close>

fun gotCount :: "worker \<Rightarrow> nat" where
  "gotCount (Got e) = 1"
| "gotCount _ = 0"


definition undecoded :: "state \<Rightarrow> nat" where
  "undecoded s = length (source s) + length (ipipe s) + sum_list (map gotCount (workers s))"








text \<open>
  What is still to be added to each counter: the bytes of the entries not yet read, the
  bytes of the buffers not yet received by the writer (the buffers of the entries not yet
  decoded included), and the entries not yet decoded.
\<close>

definition outlen :: "env \<Rightarrow> BinEntry \<Rightarrow> nat" where
  "outlen env e =
     (case decodeEntry (DecodeDump env) (formatFloat env) e of Inl err \<Rightarrow> 0 | Inr b \<Rightarrow> length b)"

fun workerBytes :: "env \<Rightarrow> worker \<Rightarrow> nat" where
  "workerBytes env (Got e) = outlen env e"
| "workerBytes env (Sending b) = length b"
| "workerBytes env _ = 0"

definition toRead :: "env \<Rightarrow> state \<Rightarrow> nat" where
  "toRead env s = sum_list (map (readSize env) (source s))"

definition toWrite :: "env \<Rightarrow> state \<Rightarrow> nat" where
  "toWrite env s =
     sum_list (map (outlen env) (source s)) + sum_list (map (outlen env) (ipipe s))
     + sum_list (map (workerBytes env) (workers s)) + sum_list (map length (opipe s))"

definition within :: "env \<Rightarrow> nat \<Rightarrow> nat \<Rightarrow> nat \<Rightarrow> state \<Rightarrow> bool" where
  "within env r w n s =
     (unat (rbytes (cmd s)) + toRead env s \<le> r
      \<and> unat (wbytes (cmd s)) + toWrite env s \<le> w
      \<and> unat (nentry (cmd s)) + undecoded s \<le> n)"

subsection \<open>Sample data\<close>

text \<open>
  An environment to run the model in: one worker; a decoder that knows four payloads
  and fails on every other one; a formatter that writes \<^verbatim>\<open>1\<close> (no sample holds a finite
  score, so that it is never consulted); and a loader that reads, for an entry, as many
  bytes as its key and value have together.
\<close>

definition sampleDecodeDump :: "string \<Rightarrow> object option" where
  "sampleDecodeDump v =
     (if v = ''string bar'' then Some (String ''bar'')
      else if v = ''list a b'' then Some (List [''a'', ''b''])
      else if v = ''empty list'' then Some (List [])
      else if v = ''zset m +Inf'' then
        Some (ZSet [\<lparr>Member = ''m'', Score = 0x7FF0000000000000\<rparr>])
      else None)"

definition sampleFormat :: "64 word \<Rightarrow> string" where
  "sampleFormat f = ''1''"

definition sampleSize :: "BinEntry \<Rightarrow> nat" where
  "sampleSize e = length (Key e) + length (BinEntry.Value e)"

definition sampleEnv :: env where
  "sampleEnv =
     \<lparr>parallel = 1, DecodeDump = sampleDecodeDump, formatFloat = sampleFormat,
      readSize = sampleSize\<rparr>"

definition sampleEntry :: "string \<Rightarrow> BinEntry" where
  "sampleEntry v = \<lparr>DB = 0, Key = ''foo'', ExpireAt = 0, Value = v\<rparr>"

section \<open>Properties\<close>

subsection \<open>Unfolding the model on concrete data\<close>

text \<open>The equations that evaluate a run, and an entry, on the sample data.\<close>

lemmas run_defs = step_def loaderSend_def loaderClose_def recv_def decode_def PanicError_def send_def
  return_def closeOpipe_def writeString_def PanicError_def closeWait_def tick_def waitDone_def Main_def Stat_def
  Let_def sampleEnv_def sampleEntry_def sampleDecodeDump_def sampleFormat_def sampleSize_def

lemmas entry_defs = decodeEntry_def Fprintf_def toJson_def Marshal_def header_def stringItem_def
  listItem_def hashItem_def setItem_def zsetItem_def encodeString_def escapeByte_def toText_def
  toBase64_def formatUint.simps formatInt_def digits_def encode_def encodeStd_def
  unsupportedFloat_def less_eq_char_def

subsection \<open>toText\<close>

lemma toText_loop_map:
  "toText_loop p b = b @ map (\<lambda>c. if CHR ''#'' \<le> c \<and> c \<le> CHR ''~'' then c else CHR ''.'') p"
  by (induction p arbitrary: b) simp_all

lemma toText_map:
  "toText p = map (\<lambda>c. if CHR ''#'' \<le> c \<and> c \<le> CHR ''~'' then c else CHR ''.'') p"
  by (simp add: toText_def toText_loop_map)

lemma dot_printable: "CHR ''#'' \<le> CHR ''.'' \<and> CHR ''.'' \<le> CHR ''~''"
  by (simp add: less_eq_char_def)

lemma toText_range: "c \<in> set (toText p) \<Longrightarrow> CHR ''#'' \<le> c \<and> c \<le> CHR ''~''"
  using dot_printable by (auto simp: toText_map)

text \<open>
  C3. For every byte sequence \<open>p\<close>, \<open>toText p\<close> has the length of \<open>p\<close>, and at every
  position \<open>i\<close> its character is \<open>p[i]\<close> if \<open>p[i]\<close> lies in \<^verbatim>\<open>'#'..'~'\<close> and \<^verbatim>\<open>'.'\<close>
  otherwise.
\<close>

theorem toText_spec:
  "length (toText p) = length p \<and>
   (\<forall>i<length p. toText p ! i =
      (if CHR ''#'' \<le> p ! i \<and> p ! i \<le> CHR ''~'' then p ! i else CHR ''.''))"
  by (simp add: toText_map)

theorem toText_spec_witness:
  "length (toText [CHR ''a'', CHR 0x20, CHR ''~'']) = 3
     \<and> toText [CHR ''a'', CHR 0x20, CHR ''~''] ! 1 = CHR ''.''
     \<and> toText [CHR ''a'', CHR 0x20, CHR ''~''] ! 2 = CHR ''~''"
proof -
  let ?p = "[CHR ''a'', CHR 0x20, CHR ''~'']"
  have t: "length (toText ?p) = length ?p \<and>
    (\<forall>i<length ?p. toText ?p ! i =
       (if CHR ''#'' \<le> ?p ! i \<and> ?p ! i \<le> CHR ''~'' then ?p ! i else CHR ''.''))"
    by (rule toText_spec)
  have l: "(1::nat) < length ?p" "(2::nat) < length ?p" by simp_all
  from t l have
    "toText ?p ! 1 = (if CHR ''#'' \<le> ?p ! 1 \<and> ?p ! 1 \<le> CHR ''~'' then ?p ! 1 else CHR ''.'')"
    and "toText ?p ! 2 = (if CHR ''#'' \<le> ?p ! 2 \<and> ?p ! 2 \<le> CHR ''~'' then ?p ! 2 else CHR ''.'')"
    by blast+
  with t show ?thesis by (simp add: less_eq_char_def)
qed

text \<open>
  C9. \<open>toText\<close> is idempotent: every byte it writes, \<^verbatim>\<open>'.'\<close> included, lies in the range
  it keeps.
\<close>

theorem toText_idempotent: "toText (toText p) = toText p"
  using dot_printable by (simp add: toText_map)

subsection \<open>toBase64\<close>

text \<open>
  The alphabet has 64 distinct characters, so a sextet is found again from its character;
  four sextets hold the 24 bits of three bytes.
\<close>

lemma indexByte_nth: "distinct xs \<Longrightarrow> i < length xs \<Longrightarrow> indexByte xs (xs ! i) = Some i"
proof (induction xs arbitrary: i)
  case Nil then show ?case by simp
next
  case (Cons x xs)
  then show ?case by (cases i) auto
qed

lemma length_encodeStd: "length encodeStd = 64"
  by (simp add: encodeStd_def)

lemma distinct_encodeStd: "distinct encodeStd"
  unfolding encodeStd_def by code_simp

lemma decodeMap_encode: "decodeMap (encode v) = Some (v mod 64)"
  unfolding decodeMap_def encode_def
  by (rule indexByte_nth [OF distinct_encodeStd]) (simp add: length_encodeStd)

lemma sextets:
  fixes val :: nat
  assumes "val < 16777216"
  shows "(val div 262144 mod 64) * 262144 + (val div 4096 mod 64) * 4096
           + (val div 64 mod 64) * 64 + val mod 64 = val"
proof -
  have a: "val mod 4096 = 64 * (val div 64 mod 64) + val mod 64"
    using mod_mult2_eq [of val 64 64] by simp
  have b: "val mod 262144 = 4096 * (val div 4096 mod 64) + val mod 4096"
    using mod_mult2_eq [of val 4096 64] by simp
  have c: "val mod 16777216 = 262144 * (val div 262144 mod 64) + val mod 262144"
    using mod_mult2_eq [of val 262144 64] by simp
  from assms have "val mod 16777216 = val" by simp
  with a b c show ?thesis by simp
qed

lemma divmod256:
  fixes q c :: nat
  assumes "c < 256"
  shows "(q * 256 + c) div 256 = q" and "(q * 256 + c) mod 256 = c"
  using assms by simp_all

lemma bytes3_nat:
  fixes a b c :: nat
  assumes "a < 256" "b < 256" "c < 256"
  shows "(a * 65536 + b * 256 + c) div 65536 = a"
    and "(a * 65536 + b * 256 + c) div 256 mod 256 = b"
    and "(a * 65536 + b * 256 + c) mod 256 = c"
    and "a * 65536 + b * 256 + c < 16777216"
proof -
  have e: "a * 65536 + b * 256 + c = (a * 256 + b) * 256 + c" by simp
  have d: "((a * 256 + b) * 256 + c) div 256 = a * 256 + b" by (rule divmod256(1) [OF assms(3)])
  have m: "(a * 256 + b) mod 256 = b" by (rule divmod256(2) [OF assms(2)])
  have r: "((a * 256 + b) * 256 + c) mod 256 = c" by (rule divmod256(2) [OF assms(3)])
  show "(a * 65536 + b * 256 + c) div 65536 = a" using assms by simp
  show "(a * 65536 + b * 256 + c) div 256 mod 256 = b" by (simp only: e d m)
  show "(a * 65536 + b * 256 + c) mod 256 = c" by (simp only: e r)
  show "a * 65536 + b * 256 + c < 16777216" using assms by simp
qed

lemma char_of_mod: "char_of (n :: nat) = char_of (n mod 256)"
  by simp

lemma bytes3:
  fixes a b c :: char
  defines "val \<equiv> (of_char a * 65536 + of_char b * 256 + of_char c :: nat)"
  shows "char_of (val div 65536) = a" "char_of (val div 256) = b" "char_of val = c"
    "val < 16777216"
proof -
  have la: "(of_char a :: nat) < 256" and lb: "(of_char b :: nat) < 256" and lc: "(of_char c :: nat) < 256"
    by simp_all
  note n = bytes3_nat [OF la lb lc, folded val_def]
  show "char_of (val div 65536) = a" by (simp only: n char_of_char)
  show "char_of (val div 256) = b"
    by (subst char_of_mod) (simp only: n char_of_char)
  show "char_of val = c"
    by (subst char_of_mod) (simp only: n char_of_char)
  show "val < 16777216" by (rule n)
qed

lemma encode_not_pad: "encode v \<noteq> CHR ''=''"
proof -
  have "CHR ''='' \<notin> set encodeStd" by (simp add: encodeStd_def)
  moreover have "encode v \<in> set encodeStd"
    unfolding encode_def by (rule nth_mem) (simp add: length_encodeStd)
  ultimately show ?thesis by metis
qed

lemma dec3:
  fixes a b c :: char
  defines "val \<equiv> (of_char a * 65536 + of_char b * 256 + of_char c :: nat)"
  defines "w \<equiv> (val div 262144 mod 64) * 262144 + (val div 4096 mod 64) * 4096
           + (val div 64 mod 64) * 64 + val mod 64"
  shows "char_of (w div 65536) = a" "char_of (w div 256) = b" "char_of w = c"
proof -
  have "w = val" unfolding w_def by (rule sextets) (simp add: val_def bytes3(4))
  then show "char_of (w div 65536) = a" "char_of (w div 256) = b" "char_of w = c"
    by (simp_all only: val_def bytes3)
qed

lemma dec2:
  fixes a b :: char
  defines "val \<equiv> (of_char a * 65536 + of_char b * 256 :: nat)"
  defines "w \<equiv> (val div 262144 mod 64) * 262144 + (val div 4096 mod 64) * 4096
           + (val div 64 mod 64) * 64"
  shows "char_of (w div 65536) = a" "char_of (w div 256) = b"
proof -
  have v: "val = of_char a * 65536 + of_char b * 256 + of_char (CHR 0x00)"
    by (simp add: val_def)
  have z: "val mod 64 = 0" by (simp add: val_def)
  have "val < 16777216" unfolding v by (rule bytes3(4))
  from sextets [OF this, unfolded z] have "w = val"
    unfolding w_def by (simp only: mult_zero_left add_0_right)
  then show "char_of (w div 65536) = a" "char_of (w div 256) = b"
    by (simp_all only: v bytes3)
qed

lemma dec1:
  fixes a :: char
  defines "val \<equiv> (of_char a * 65536 :: nat)"
  defines "w \<equiv> (val div 262144 mod 64) * 262144 + (val div 4096 mod 64) * 4096"
  shows "char_of (w div 65536) = a"
proof -
  have v: "val = of_char a * 65536 + of_char (CHR 0x00) * 256 + of_char (CHR 0x00)"
    by (simp add: val_def)
  have z: "val mod 64 = 0" "val div 64 mod 64 = 0" by (simp_all add: val_def)
  have "val < 16777216" unfolding v by (rule bytes3(4))
  from sextets [OF this, unfolded z] have "w = val"
    unfolding w_def by (simp only: mult_zero_left add_0_right)
  then show "char_of (w div 65536) = a"
    by (simp only: v bytes3)
qed

lemmas base64_unfold = EncodeToString.simps base64decode.simps Let_def decodeMap_encode
  encode_not_pad prod.case option.case if_True if_False simp_thms option.map append.simps

lemma base64decode_EncodeToString: "base64decode (EncodeToString x) = Some x"
proof (induction x rule: EncodeToString.induct)
  case 1
  show ?case by simp
next
  case (2 s0)
  show ?case by (simp only: base64_unfold dec1)
next
  case (3 s0 s1)
  show ?case by (simp only: base64_unfold dec2)
next
  case (4 s0 s1 s2 src)
  then show ?case by (simp only: base64_unfold dec3)
qed

text \<open>
  The Base64 text needs no escaping: the string encoder copies it between the quotes.
\<close>

lemma encode_in: "encode v \<in> set encodeStd"
  unfolding encode_def by (rule nth_mem) (simp add: length_encodeStd)

lemma EncodeToString_alphabet:
  "c \<in> set (EncodeToString p) \<Longrightarrow> c \<in> set encodeStd \<or> c = CHR ''=''"
proof (induction p arbitrary: c rule: EncodeToString.induct)
  case 1
  then show ?case by simp
next
  case (2 s0)
  then show ?case using encode_in by (auto simp: Let_def)
next
  case (3 s0 s1)
  then show ?case using encode_in by (auto simp: Let_def)
next
  case (4 s0 s1 s2 src)
  then show ?case using encode_in by (auto simp: Let_def)
qed

lemma alphabet_copied: "\<forall>c \<in> set (encodeStd @ ''=''). escapeByte c = [c]"
  by (simp add: encodeStd_def escapeByte_def less_eq_char_def)

lemma alphabet_range:
  "\<forall>c \<in> set (encodeStd @ ''=''). CHR ''#'' \<le> c \<and> c \<le> CHR ''~''"
  by (simp add: encodeStd_def less_eq_char_def)

lemma toBase64_range: "c \<in> set (toBase64 p) \<Longrightarrow> CHR ''#'' \<le> c \<and> c \<le> CHR ''~''"
  using EncodeToString_alphabet [of c p] alphabet_range by (auto simp: toBase64_def)

lemma escapeBytes_copied: "\<forall>c \<in> set s. escapeByte c = [c] \<Longrightarrow> escapeBytes s = s"
  by (induction s) simp_all

lemma encodeString_toBase64: "encodeString (toBase64 p) = [CHR 0x22] @ toBase64 p @ [CHR 0x22]"
proof -
  have "\<forall>c \<in> set (toBase64 p). escapeByte c = [c]"
    using EncodeToString_alphabet [of _ p] alphabet_copied by (auto simp: toBase64_def)
  then show ?thesis by (simp add: encodeString_def escapeBytes_copied)
qed

text \<open>
  C4. The bytes written into a \<^verbatim>\<open>key64\<close>, \<^verbatim>\<open>field64\<close>, \<^verbatim>\<open>member64\<close> or \<^verbatim>\<open>value64\<close>
  field are the standard Base64 encoding of the original bytes: decoding them gives the
  original bytes back, and the field of the output line holds them as they are, between
  quotes.
\<close>

theorem toBase64_roundtrip:
  "base64decode (toBase64 x) = Some x
   \<and> encodeString (toBase64 x) = [CHR 0x22] @ toBase64 x @ [CHR 0x22]"
  by (simp only: encodeString_toBase64 simp_thms) (simp add: toBase64_def base64decode_EncodeToString)

subsection \<open>toJson writes no line feed\<close>



















lemma toJson_zsetItem_fails:
  "unsupportedFloat (Score ele) \<Longrightarrow> toJson fmt (zsetItem e ele) = Inl EncodeToJsonFailed"
  by (simp add: toJson_def Marshal_def zsetItem_def header_def)

subsection \<open>The lines of one entry\<close>











text \<open>
  Every string that the program hands to the encoder, field values and type names
  alike, consists of bytes in \<^verbatim>\<open>'#'..'~'\<close>.
\<close>

lemma type_names_range:
  "c \<in> set ''string'' \<union> set ''list'' \<union> set ''hash'' \<union> set ''set'' \<union> set ''zset''
   \<Longrightarrow> CHR ''#'' \<le> c \<and> c \<le> CHR ''~''"
  by (auto simp: less_eq_char_def)

lemma item_strings_range:
  assumes "v \<in> set (items e obj)" and "(n, JString x) \<in> set v" and "c \<in> set x"
  shows "CHR ''#'' \<le> c \<and> c \<le> CHR ''~''"
proof -
  note r = toText_range [of c] toBase64_range [of c] type_names_range [of c]
  show ?thesis
  proof (cases obj)
    case (String s)
    with assms show ?thesis using r by (auto simp: stringItem_def header_def)
  next
    case (List xs)
    with assms show ?thesis using r by (auto simp: listItem_def header_def)
  next
    case (Hash xs)
    with assms show ?thesis using r by (auto simp: hashItem_def header_def)
  next
    case (Set xs)
    with assms show ?thesis using r by (auto simp: setItem_def header_def)
  next
    case (ZSet xs)
    with assms show ?thesis using r by (auto simp: zsetItem_def header_def)
  next
    case Unknown
    with assms show ?thesis by simp
  qed
qed




text \<open>
  C7. An entry with \<^verbatim>\<open>db = 0\<close>, key \<^verbatim>\<open>foo\<close>, \<^verbatim>\<open>expireAt = 0\<close> and a payload that decodes
  to the scalar \<^verbatim>\<open>bar\<close> gives exactly one line, the JSON object with \<^verbatim>\<open>db\<close> 0, \<^verbatim>\<open>type\<close>
  \<^verbatim>\<open>string\<close>, \<^verbatim>\<open>expireat\<close> 0, \<^verbatim>\<open>key\<close> \<^verbatim>\<open>foo\<close>, \<^verbatim>\<open>key64\<close> \<^verbatim>\<open>Zm9v\<close> and \<^verbatim>\<open>value64\<close> \<^verbatim>\<open>YmFy\<close>.
\<close>

theorem scenario_A:
  assumes "dump raw = Some (String ''bar'')"
  shows \<open>decodeEntry dump fmt \<lparr>DB = 0, Key = ''foo'', ExpireAt = 0, Value = raw\<rparr> =
           Inr (''{"db":0,"type":"string","expireat":0,"key":"foo","key64":"Zm9v","value64":"YmFy"}''
                @ [CHR 0x0A])
         \<and> lines_of (''{"db":0,"type":"string","expireat":0,"key":"foo","key64":"Zm9v","value64":"YmFy"}''
                @ [CHR 0x0A]) =
           [''{"db":0,"type":"string","expireat":0,"key":"foo","key64":"Zm9v","value64":"YmFy"}'']\<close>
  using assms by (simp add: entry_defs lines_of_def)

theorem scenario_A_witness:
  \<open>sampleDecodeDump ''string bar'' = Some (String ''bar'')
   \<and> decodeEntry sampleDecodeDump sampleFormat (sampleEntry ''string bar'') =
       Inr (''{"db":0,"type":"string","expireat":0,"key":"foo","key64":"Zm9v","value64":"YmFy"}''
            @ [CHR 0x0A])\<close>
proof -
  have d: "sampleDecodeDump ''string bar'' = Some (String ''bar'')"
    by (simp add: sampleDecodeDump_def)
  from scenario_A [of sampleDecodeDump "''string bar''" sampleFormat, OF d] d
  show ?thesis by (simp add: sampleEntry_def)
qed

subsection \<open>Invariants of a run: the entries are counted once\<close>

lemma sum_list_map_update:
  fixes f :: "'a \<Rightarrow> nat"
  shows "i < length xs \<Longrightarrow> sum_list (map f (xs[i := y])) + f (xs ! i) = sum_list (map f xs) + f y"
proof (induction xs arbitrary: i)
  case Nil
  then show ?case by simp
next
  case (Cons x xs)
  show ?case
  proof (cases i)
    case 0
    then show ?thesis by simp
  next
    case (Suc j)
    with Cons.prems have "j < length xs" by simp
    from Cons.IH [OF this] show ?thesis by (simp add: Suc)
  qed
qed
















lemma sint_word_of_nat64: "n < 2 ^ 63 \<Longrightarrow> sint (word_of_nat n :: 64 word) = int n"
  by (simp add: signed_of_nat signed_take_bit_int_eq_self)




subsection \<open>What is sent on the output channel, and when\<close>







subsection \<open>Panics and empty buffers\<close>

text \<open>
  C6. When \<^verbatim>\<open>rdb.DecodeDump\<close> fails on the value of the entry a worker holds, or returns
  an object of no known type, the worker's next step is the panic: it changes nothing but
  the fatal flag (no counter, no channel, nothing written), no action of any goroutine
  follows it, and the worker has no other step to take with that entry (it can neither
  receive the next entry, nor send, nor return).
\<close>

theorem decode_failure_fatal:
  assumes "i < length (workers s)" and "workers s ! i = Got e"
    and "fatal s = None" and "\<not> returned s"
    and "DecodeDump env (BinEntry.Value e) = None \<or> DecodeDump env (BinEntry.Value e) = Some Unknown"
  shows "exec env (Decode i # as) s =
           (if as = []
            then Some (s\<lparr>fatal := Some (if DecodeDump env (BinEntry.Value e) = None
                                           then DecodeFailed else UnknownObject)\<rparr>)
            else None)
         \<and> step env (Recv i) s = None \<and> step env (Send i) s = None
         \<and> step env (Return i) s = None"
proof -
  let ?err = "if DecodeDump env (BinEntry.Value e) = None then DecodeFailed else UnknownObject"
  from assms(5) have d: "decodeEntry (DecodeDump env) (formatFloat env) e = Inl ?err"
    by (auto simp: decodeEntry_def)
  with assms(1-4) have st: "step env (Decode i) s = Some (s\<lparr>fatal := Some ?err\<rparr>)"
    by (simp add: step_def decode_def PanicError_def)
  have stuck: "exec env as (s\<lparr>fatal := Some ?err\<rparr>) = (if as = [] then Some (s\<lparr>fatal := Some ?err\<rparr>) else None)"
    by (cases as) (simp_all add: step_def)
  from assms(1-4) have "step env (Recv i) s = None" "step env (Send i) s = None"
    "step env (Return i) s = None"
    by (simp_all add: step_def recv_def send_def return_def)
  with st stuck show ?thesis by simp
qed

theorem decode_failure_fatal_witness:
  "exec sampleEnv [Decode 0]
     ((Main sampleEnv [])\<lparr>workers := [Got (sampleEntry ''garbage'')]\<rparr>) =
     Some ((Main sampleEnv [])\<lparr>workers := [Got (sampleEntry ''garbage'')],
                                 fatal := Some DecodeFailed\<rparr>)
   \<and> exec sampleEnv [Decode 0, Recv 0]
     ((Main sampleEnv [])\<lparr>workers := [Got (sampleEntry ''garbage'')]\<rparr>) = None"
proof -
  let ?s = "(Main sampleEnv [])\<lparr>workers := [Got (sampleEntry ''garbage'')]\<rparr>"
  have h: "0 < length (workers ?s)" "workers ?s ! 0 = Got (sampleEntry ''garbage'')"
    "fatal ?s = None" "\<not> returned ?s"
    "DecodeDump sampleEnv (BinEntry.Value (sampleEntry ''garbage'')) = None
     \<or> DecodeDump sampleEnv (BinEntry.Value (sampleEntry ''garbage'')) = Some Unknown"
    by (simp_all add: Main_def sampleEnv_def sampleEntry_def sampleDecodeDump_def)
  have n: "DecodeDump sampleEnv (BinEntry.Value (sampleEntry ''garbage'')) = None"
    by (simp add: sampleEnv_def sampleEntry_def sampleDecodeDump_def)
  from decode_failure_fatal [OF h, of "[]"] decode_failure_fatal [OF h, of "[Recv 0]"] n
  show ?thesis by simp
qed

text \<open>
  C10. A worker that holds an entry decoding to an empty List, Hash, Set or SortedSet
  increments \<^verbatim>\<open>nentry\<close> by one and sends one element, the empty string, on \<^verbatim>\<open>opipe\<close>.
  The empty string has no line; when the writer receives it, the bytes-written counter and
  the contents of the destination stay as they are.
\<close>

theorem empty_container:
  assumes "i < length (workers s)" and "workers s ! i = Got e"
    and "fatal s = None" and "\<not> returned s"
    and "length (opipe s) < parallel env * 32" and "\<not> opipe_closed s"
    and "DecodeDump env (BinEntry.Value e) = Some obj"
    and "obj = List [] \<or> obj = Hash [] \<or> obj = Set [] \<or> obj = ZSet []"
    and "opipe t = [] # rest" and "fatal t = None" and "\<not> returned t"
  shows "exec env [Decode i, Send i] s =
           Some (s\<lparr>cmd := (cmd s)\<lparr>nentry := nentry (cmd s) + 1\<rparr>,
                    workers := (workers s)[i := Ranging], opipe := opipe s @ [[]]\<rparr>)
         \<and> lines_of [] = []
         \<and> step env (Write True) t = Some (t\<lparr>opipe := rest, saveto := saveto t @ [[]]\<rparr>)
         \<and> concat (saveto t @ [[]]) = concat (saveto t)"
proof -
  from assms(7,8) have d: "decodeEntry (DecodeDump env) (formatFloat env) e = Inr []"
    by (auto simp: decodeEntry_def)
  with assms(1-4) have
    "step env (Decode i) s =
       Some (s\<lparr>cmd := (cmd s)\<lparr>nentry := nentry (cmd s) + 1\<rparr>, workers := (workers s)[i := Sending []]\<rparr>)"
    by (simp add: step_def decode_def PanicError_def)
  with assms(1-6) have
    "exec env [Decode i, Send i] s =
       Some (s\<lparr>cmd := (cmd s)\<lparr>nentry := nentry (cmd s) + 1\<rparr>,
                workers := (workers s)[i := Ranging], opipe := opipe s @ [[]]\<rparr>)"
    by (simp add: step_def send_def)
  moreover from assms(9-11) have
    "step env (Write True) t = Some (t\<lparr>opipe := rest, saveto := saveto t @ [[]]\<rparr>)"
    by (simp add: step_def writeString_def PanicError_def)
  ultimately show ?thesis by (simp add: lines_of_def)
qed

theorem empty_container_witness:
  "exec sampleEnv [Decode 0, Send 0]
     ((Main sampleEnv [])\<lparr>workers := [Got (sampleEntry ''empty list'')]\<rparr>) =
     Some ((Main sampleEnv [])\<lparr>cmd := \<lparr>rbytes = 0, wbytes = 0, nentry = 1\<rparr>, opipe := [[]]\<rparr>)
   \<and> step sampleEnv (Write True) ((Main sampleEnv [])\<lparr>opipe := [[]]\<rparr>) =
     Some ((Main sampleEnv [])\<lparr>saveto := [[]]\<rparr>)"
proof -
  let ?e = "sampleEntry ''empty list''"
  let ?s = "(Main sampleEnv [])\<lparr>workers := [Got ?e]\<rparr>"
  let ?t = "(Main sampleEnv [])\<lparr>opipe := [[]]\<rparr>"
  have h: "0 < length (workers ?s)" "workers ?s ! 0 = Got ?e" "fatal ?s = None" "\<not> returned ?s"
    "length (opipe ?s) < parallel sampleEnv * 32" "\<not> opipe_closed ?s"
    "DecodeDump sampleEnv (BinEntry.Value ?e) = Some (List [])"
    "List [] = List [] \<or> List [] = Hash [] \<or> List [] = Set [] \<or> List [] = ZSet []"
    "opipe ?t = [] # []" "fatal ?t = None" "\<not> returned ?t"
    by (simp_all add: Main_def sampleEnv_def sampleEntry_def sampleDecodeDump_def)
  from empty_container [OF h] show ?thesis
    by (simp add: Main_def sampleEnv_def)
qed

subsection \<open>The counters never decrease\<close>

lemma unat_add_nat64:
  assumes "unat (c :: 64 word) + d < 2 ^ 63"
  shows "unat (c + word_of_nat d) = unat c + d"
proof -
  from assms have d: "d < 2 ^ 64" by simp
  then have u: "unat (word_of_nat d :: 64 word) = d"
    by (simp add: unsigned_of_nat take_bit_nat_eq_self)
  from assms have "unat c + unat (word_of_nat d :: 64 word) < 2 ^ LENGTH(64)"
    unfolding u by simp
  then have "unat (c + word_of_nat d) = unat c + unat (word_of_nat d :: 64 word)"
    by (rule unat_add_lem [THEN iffD1])
  then show ?thesis unfolding u .
qed

lemma sint_unat64: "unat (c :: 64 word) < 2 ^ 63 \<Longrightarrow> sint c = int (unat c)"
  using sint_word_of_nat64 [of "unat c"] by simp

lemma sint_mono64:
  assumes "unat (c' :: 64 word) < 2 ^ 63" and "unat (c :: 64 word) \<le> unat c'"
  shows "sint c \<le> sint c'"
proof -
  from assms have "unat c < 2 ^ 63" by simp
  then have "sint c = int (unat c)" by (rule sint_unat64)
  moreover from assms(1) have "sint c' = int (unat c')" by (rule sint_unat64)
  moreover from assms(2) have "int (unat c) \<le> int (unat c')" by (simp only: of_nat_le_iff)
  ultimately show ?thesis by (simp only:)
qed

text \<open>One action on the three counters: each grows by what leaves the part still to come.\<close>

lemma withinI:
  assumes "within env r w n s" and "r < 2 ^ 63" and "w < 2 ^ 63" and "n < 2 ^ 63"
    and "rbytes (cmd s') = rbytes (cmd s) + word_of_nat dr" and "toRead env s' + dr \<le> toRead env s"
    and "wbytes (cmd s') = wbytes (cmd s) + word_of_nat dw" and "toWrite env s' + dw \<le> toWrite env s"
    and "nentry (cmd s') = nentry (cmd s) + word_of_nat dn" and "undecoded s' + dn \<le> undecoded s"
  shows "within env r w n s'
         \<and> unat (rbytes (cmd s)) \<le> unat (rbytes (cmd s'))
         \<and> unat (wbytes (cmd s)) \<le> unat (wbytes (cmd s'))
         \<and> unat (nentry (cmd s)) \<le> unat (nentry (cmd s'))"
proof -
  from assms(1) have b: "unat (rbytes (cmd s)) + toRead env s \<le> r"
    "unat (wbytes (cmd s)) + toWrite env s \<le> w" "unat (nentry (cmd s)) + undecoded s \<le> n"
    by (simp_all add: within_def)
  have "unat (rbytes (cmd s)) + dr < 2 ^ 63" using b(1) assms(2,6) by simp
  then have r: "unat (rbytes (cmd s')) = unat (rbytes (cmd s)) + dr"
    by (simp add: assms(5) unat_add_nat64)
  have "unat (wbytes (cmd s)) + dw < 2 ^ 63" using b(2) assms(3,8) by simp
  then have w: "unat (wbytes (cmd s')) = unat (wbytes (cmd s)) + dw"
    by (simp add: assms(7) unat_add_nat64)
  have "unat (nentry (cmd s)) + dn < 2 ^ 63" using b(3) assms(4,10) by simp
  then have n: "unat (nentry (cmd s')) = unat (nentry (cmd s)) + dn"
    by (simp add: assms(9) unat_add_nat64)
  show ?thesis unfolding within_def r w n using b assms(6,8,10) by simp
qed

lemmas potential_defs = toRead_def toWrite_def undecoded_def

lemma within_act:
  assumes "within env r w n s" and "r < 2 ^ 63" and "w < 2 ^ 63" and "n < 2 ^ 63"
    and "act env a s = Some s'"
  shows "within env r w n s'
         \<and> unat (rbytes (cmd s)) \<le> unat (rbytes (cmd s'))
         \<and> unat (wbytes (cmd s)) \<le> unat (wbytes (cmd s'))
         \<and> unat (nentry (cmd s)) \<le> unat (nentry (cmd s'))"
proof (cases a)
  case LoaderSend
  with assms(5) obtain e rest where so: "source s = e # rest"
    and s': "s' = s\<lparr>source := rest, ipipe := ipipe s @ [e],
                    cmd := (cmd s)\<lparr>rbytes := rbytes (cmd s) + word_of_nat (readSize env e)\<rparr>\<rparr>"
    by (auto simp: loaderSend_def split: list.splits if_splits)
  show ?thesis
    by (rule withinI [OF assms(1-4), where dr = "readSize env e" and dw = 0 and dn = 0])
      (simp_all add: s' so potential_defs)
next
  case LoaderClose
  with assms(5) have s': "s' = s\<lparr>ipipe_closed := True\<rparr>"
    by (auto simp: loaderClose_def split: if_splits)
  show ?thesis
    by (rule withinI [OF assms(1-4), where dr = 0 and dw = 0 and dn = 0])
      (simp_all add: s' potential_defs)
next
  case (Recv i)
  with assms(5) obtain e rest where i: "i < length (workers s)" and w: "workers s ! i = Ranging"
    and ip: "ipipe s = e # rest"
    and s': "s' = s\<lparr>ipipe := rest, workers := (workers s)[i := Got e]\<rparr>"
    by (auto simp: recv_def split: if_splits list.splits)
  from sum_list_map_update [OF i, of gotCount "Got e"]
    sum_list_map_update [OF i, of "workerBytes env" "Got e"]
  show ?thesis
    by (intro withinI [OF assms(1-4), where dr = 0 and dw = 0 and dn = 0])
      (simp_all add: s' ip w potential_defs)
next
  case (Decode i)
  with assms(5) obtain e where i: "i < length (workers s)" and w: "workers s ! i = Got e"
    by (auto simp: decode_def PanicError_def split: if_splits worker.splits)
  show ?thesis
  proof (cases "decodeEntry (DecodeDump env) (formatFloat env) e")
    case (Inl err)
    with assms(5) Decode i w have s': "s' = s\<lparr>fatal := Some err\<rparr>" by (auto simp: decode_def PanicError_def)
    show ?thesis
      by (rule withinI [OF assms(1-4), where dr = 0 and dw = 0 and dn = 0])
        (simp_all add: s' potential_defs)
  next
    case (Inr b)
    with assms(5) Decode i w have
      s': "s' = s\<lparr>cmd := (cmd s)\<lparr>nentry := nentry (cmd s) + 1\<rparr>, workers := (workers s)[i := Sending b]\<rparr>"
      by (auto simp: decode_def PanicError_def)
    from Inr have o: "outlen env e = length b" by (simp add: outlen_def)
    from sum_list_map_update [OF i, of gotCount "Sending b"]
      sum_list_map_update [OF i, of "workerBytes env" "Sending b"]
    show ?thesis
      by (intro withinI [OF assms(1-4), where dr = 0 and dw = 0 and dn = 1])
        (simp_all add: s' w o potential_defs)
  qed
next
  case (Send i)
  with assms(5) obtain b where i: "i < length (workers s)" and w: "workers s ! i = Sending b"
    and s': "s' = s\<lparr>opipe := opipe s @ [b], workers := (workers s)[i := Ranging]\<rparr>"
    by (auto simp: send_def split: if_splits worker.splits)
  from sum_list_map_update [OF i, of gotCount Ranging]
    sum_list_map_update [OF i, of "workerBytes env" Ranging]
  show ?thesis
    by (intro withinI [OF assms(1-4), where dr = 0 and dw = 0 and dn = 0])
      (simp_all add: s' w potential_defs)
next
  case (Return i)
  with assms(5) have i: "i < length (workers s)" and w: "workers s ! i = Ranging"
    and s': "s' = s\<lparr>workers := (workers s)[i := Returned]\<rparr>"
    by (auto simp: return_def split: if_splits)
  from sum_list_map_update [OF i, of gotCount Returned]
    sum_list_map_update [OF i, of "workerBytes env" Returned]
  show ?thesis
    by (intro withinI [OF assms(1-4), where dr = 0 and dw = 0 and dn = 0])
      (simp_all add: s' w potential_defs)
next
  case CloseOpipe
  with assms(5) have s': "s' = s\<lparr>opipe_closed := True\<rparr>"
    by (auto simp: closeOpipe_def split: if_splits)
  show ?thesis
    by (rule withinI [OF assms(1-4), where dr = 0 and dw = 0 and dn = 0])
      (simp_all add: s' potential_defs)
next
  case (Write ok)
  with assms(5) obtain x rest where op: "opipe s = x # rest"
    and c: "cmd s' = (cmd s)\<lparr>wbytes := wbytes (cmd s) + word_of_nat (length x)\<rparr>"
    and o: "opipe s' = rest" "source s' = source s" "ipipe s' = ipipe s" "workers s' = workers s"
    by (auto simp: writeString_def PanicError_def Let_def split: list.splits if_splits)
  show ?thesis
    by (rule withinI [OF assms(1-4), where dr = 0 and dw = "length x" and dn = 0])
      (simp_all add: c o op potential_defs)
next
  case CloseWait
  with assms(5) have s': "s' = s\<lparr>wait_closed := True\<rparr>"
    by (auto simp: closeWait_def split: if_splits)
  show ?thesis
    by (rule withinI [OF assms(1-4), where dr = 0 and dw = 0 and dn = 0])
      (simp_all add: s' potential_defs)
next
  case Tick
  with assms(5) have s': "s' = s\<lparr>logged := logged s @ [Stat s]\<rparr>"
    by (auto simp: tick_def)
  show ?thesis
    by (rule withinI [OF assms(1-4), where dr = 0 and dw = 0 and dn = 0])
      (simp_all add: s' potential_defs)
next
  case Done
  with assms(5) have s': "s' = s\<lparr>logged := logged s @ [Stat s], returned := True\<rparr>"
    by (auto simp: waitDone_def split: if_splits)
  show ?thesis
    by (rule withinI [OF assms(1-4), where dr = 0 and dw = 0 and dn = 0])
      (simp_all add: s' potential_defs)
qed

lemma within_exec:
  assumes "r < 2 ^ 63" and "w < 2 ^ 63" and "n < 2 ^ 63"
  shows "within env r w n s \<Longrightarrow> exec env as s = Some s' \<Longrightarrow>
         within env r w n s'
         \<and> unat (rbytes (cmd s)) \<le> unat (rbytes (cmd s'))
         \<and> unat (wbytes (cmd s)) \<le> unat (wbytes (cmd s'))
         \<and> unat (nentry (cmd s)) \<le> unat (nentry (cmd s'))"
proof (induction as arbitrary: s)
  case Nil
  then show ?case by simp
next
  case (Cons a as)
  from Cons.prems(2) obtain s1 where a: "step env a s = Some s1" and as: "exec env as s1 = Some s'"
    by (auto split: option.splits)
  from a have "act env a s = Some s1" by (auto simp: step_def split: if_splits)
  from within_act [OF Cons.prems(1) assms this]
  have w1: "within env r w n s1" and m1: "unat (rbytes (cmd s)) \<le> unat (rbytes (cmd s1))"
    "unat (wbytes (cmd s)) \<le> unat (wbytes (cmd s1))" "unat (nentry (cmd s)) \<le> unat (nentry (cmd s1))"
    by simp_all
  from Cons.IH [OF w1 as] m1 show ?case by simp
qed

lemma within_Main:
  "within env (sum_list (map (readSize env) input)) (sum_list (map (outlen env) input))
     (length input) (Main env input)"
  by (simp add: within_def Main_def potential_defs sum_list_replicate)

lemma monitor_reads:
  "a = Tick \<or> a = Done \<Longrightarrow> step env a s = Some s' \<Longrightarrow> cmd s' = cmd s"
  by (auto simp: step_def tick_def waitDone_def split: if_splits)

text \<open>
  C8. Along every run, as long as the totals fit the 64-bit counters (bytes to read,
  bytes to write and entries each below \<open>2^63\<close>), none of the three counters, read as a
  signed number, ever decreases; and a step of the monitor loop leaves all three as they
  are.
\<close>

theorem counters_monotone:
  assumes "exec env as (Main env input) = Some s" and "exec env bs s = Some s'"
    and "sum_list (map (readSize env) input) < 2 ^ 63"
    and "sum_list (map (outlen env) input) < 2 ^ 63"
    and "length input < 2 ^ 63"
  shows "sint (rbytes (cmd s)) \<le> sint (rbytes (cmd s'))
         \<and> sint (wbytes (cmd s)) \<le> sint (wbytes (cmd s'))
         \<and> sint (nentry (cmd s)) \<le> sint (nentry (cmd s'))
         \<and> (bs = [Tick] \<or> bs = [Done] \<longrightarrow> cmd s' = cmd s)"
proof -
  let ?r = "sum_list (map (readSize env) input)" and ?w = "sum_list (map (outlen env) input)"
  let ?n = "length input"
  note b = assms(3-5)
  from within_exec [OF b within_Main assms(1)] have w: "within env ?r ?w ?n s" by simp
  from within_exec [OF b w assms(2)] have w': "within env ?r ?w ?n s'"
    and m: "unat (rbytes (cmd s)) \<le> unat (rbytes (cmd s'))"
    "unat (wbytes (cmd s)) \<le> unat (wbytes (cmd s'))"
    "unat (nentry (cmd s)) \<le> unat (nentry (cmd s'))"
    by simp_all
  have small: "\<And>t. within env ?r ?w ?n t \<Longrightarrow>
      unat (rbytes (cmd t)) < 2 ^ 63 \<and> unat (wbytes (cmd t)) < 2 ^ 63 \<and> unat (nentry (cmd t)) < 2 ^ 63"
    using b by (simp add: within_def)
  from small [OF w'] m have
    "sint (rbytes (cmd s)) \<le> sint (rbytes (cmd s'))"
    "sint (wbytes (cmd s)) \<le> sint (wbytes (cmd s'))"
    "sint (nentry (cmd s)) \<le> sint (nentry (cmd s'))"
    by (simp_all add: sint_mono64)
  moreover have "bs = [Tick] \<or> bs = [Done] \<longrightarrow> cmd s' = cmd s"
  proof
    assume bs: "bs = [Tick] \<or> bs = [Done]"
    then obtain a where a: "a = Tick \<or> a = Done" and "bs = [a]" by blast
    with assms(2) have "step env a s = Some s'" by (auto split: option.splits)
    from monitor_reads [OF a this] show "cmd s' = cmd s" .
  qed
  ultimately show ?thesis by simp
qed

theorem counters_monotone_witness:
  "\<exists>s s'. exec sampleEnv [LoaderSend, Recv 0, Decode 0, Send 0]
            (Main sampleEnv [sampleEntry ''string bar'']) = Some s
        \<and> exec sampleEnv [Write True] s = Some s'
        \<and> wbytes (cmd s) = 0 \<and> wbytes (cmd s') = 82
        \<and> sint (rbytes (cmd s)) \<le> sint (rbytes (cmd s'))
        \<and> sint (wbytes (cmd s)) \<le> sint (wbytes (cmd s'))
        \<and> sint (nentry (cmd s)) \<le> sint (nentry (cmd s'))"
proof -
  let ?as = "[LoaderSend, Recv 0, Decode 0, Send 0]" and ?input = "[sampleEntry ''string bar'']"
  have "\<exists>s s'. exec sampleEnv ?as (Main sampleEnv ?input) = Some s
          \<and> exec sampleEnv [Write True] s = Some s' \<and> wbytes (cmd s) = 0 \<and> wbytes (cmd s') = 82"
    by (simp add: run_defs entry_defs)
  then obtain s s' where run: "exec sampleEnv ?as (Main sampleEnv ?input) = Some s"
    and run': "exec sampleEnv [Write True] s = Some s'"
    and v: "wbytes (cmd s) = 0" "wbytes (cmd s') = 82"
    by blast
  have r: "sum_list (map (readSize sampleEnv) ?input) < 2 ^ 63"
    by (simp add: sampleEnv_def sampleSize_def sampleEntry_def)
  have w: "sum_list (map (outlen sampleEnv) ?input) < 2 ^ 63"
    by (simp add: outlen_def sampleEnv_def sampleEntry_def sampleDecodeDump_def sampleFormat_def
        entry_defs)
  have n: "length ?input < 2 ^ 63" by simp
  from counters_monotone [OF run run' r w n] run run' v show ?thesis by blast
qed

end
